theory Spec2Isabelle
  imports Main
begin

section \<open>Slices of middleware functions\<close>

text \<open>
  The router keeps its middleware in Go slices (\<^verbatim>\<open>[]MiddlewareFunc\<close>). A slice is a
  header (array, first cell, length, capacity) over a backing array that other slices
  may share, and \<^verbatim>\<open>append\<close> writes into the backing array when the capacity allows.
  The backing arrays live in an explicit heap: an array is a function from cell index to
  value, so that the cells of the spare capacity need no initial value.
\<close>

record slice =
  ptr :: nat
  off :: nat
  len :: nat
  cap :: nat

record 'm heap =
  arrays :: "nat \<Rightarrow> nat \<Rightarrow> 'm"
  next_array :: nat

definition nil_slice :: slice where
  "nil_slice = \<lparr>ptr = 0, off = 0, len = 0, cap = 0\<rparr>"

text \<open>The elements a slice shows: cells \<open>off .. off + len - 1\<close> of its array.\<close>

definition view :: "'m heap \<Rightarrow> slice \<Rightarrow> 'm list" where
  "view h s = map (arrays h (ptr s)) [off s ..< off s + len s]"

definition store_at :: "(nat \<Rightarrow> 'm) \<Rightarrow> nat \<Rightarrow> 'm list \<Rightarrow> (nat \<Rightarrow> 'm)" where
  "store_at arr p xs = (\<lambda>i. if p \<le> i \<and> i < p + length xs then xs ! (i - p) else arr i)"

text \<open>
  Go's \<^verbatim>\<open>append(s, xs...)\<close>. When the result fits the capacity of \<open>s\<close> the elements are
  written in place, after the last element of \<open>s\<close>, and the result shares the array of
  \<open>s\<close>. Otherwise a new array is allocated, the elements of \<open>s\<close> and \<open>xs\<close> are copied
  into it, and nothing that exists is written. The capacity of a new array is chosen by
  the runtime: it is the parameter \<open>grow\<close> (old capacity, needed length), and is never
  less than the needed length.
\<close>

definition append_slice ::
  "(nat \<Rightarrow> nat \<Rightarrow> nat) \<Rightarrow> 'm heap \<Rightarrow> slice \<Rightarrow> 'm list \<Rightarrow> slice \<times> 'm heap" where
  "append_slice grow h s xs =
     (if len s + length xs \<le> cap s then
        (s\<lparr>len := len s + length xs\<rparr>,
         h\<lparr>arrays := (arrays h)(ptr s := store_at (arrays h (ptr s)) (off s + len s) xs)\<rparr>)
      else
        (let ys = view h s @ xs; a = next_array h in
         (\<lparr>ptr = a, off = 0, len = length ys, cap = max (grow (cap s) (length ys)) (length ys)\<rparr>,
          h\<lparr>arrays := (arrays h)(a := store_at (arrays h a) 0 ys), next_array := Suc a\<rparr>)))"

section \<open>Data model\<close>

text \<open>
  Handlers and middleware are Go function values: the router stores them and calls
  them, and does nothing else with them. They are values of the type parameters \<open>'h\<close>
  and \<open>'m\<close>; the container is an opaque reference of type \<open>'c\<close>.
\<close>

record 'h Binding =
  handler :: 'h
  match :: string
  "method" :: string
  middlewares :: slice

record ('h, 'c) Router =
  path :: string
  binding :: "'h Binding list"
  container :: 'c
  middlewares_r :: slice

definition connect :: string where "connect = ''CONNECT''"
definition delete :: string where "delete = ''DELETE''"
definition get :: string where "get = ''GET''"
definition head :: string where "head = ''HEAD''"
definition options :: string where "options = ''OPTIONS''"
definition patch :: string where "patch = ''PATCH''"
definition post :: string where "post = ''POST''"
definition put :: string where "put = ''PUT''"
definition trace :: string where "trace = ''TRACE''"

section \<open>Registration\<close>

text \<open>
  The methods with a pointer receiver update the router in place and return it; the
  model returns the updated router. The binding table is a list: \<^verbatim>\<open>route\<close> and
  \<^verbatim>\<open>Merge\<close> only ever append to it.
\<close>

definition Base :: "('h, 'c) Router \<Rightarrow> string \<Rightarrow> ('h, 'c) Router" where
  "Base r prefix = r\<lparr>path := prefix\<rparr>"

definition SetDIContainer :: "('h, 'c) Router \<Rightarrow> 'c \<Rightarrow> ('h, 'c) Router" where
  "SetDIContainer r c = r\<lparr>container := c\<rparr>"

text \<open>
  \<^verbatim>\<open>route\<close> stores the slice of middleware it is given, header and all: the variadic
  argument of the registration functions is that slice, not a copy of it.
\<close>

definition route ::
  "('h, 'c) Router \<Rightarrow> string \<Rightarrow> string \<Rightarrow> 'h \<Rightarrow> slice \<Rightarrow> ('h, 'c) Router" where
  "route r meth rt f middleware =
     r\<lparr>binding := binding r @ [\<lparr>handler = f, match = rt, method = meth, middlewares = middleware\<rparr>]\<rparr>"

definition Get :: "('h, 'c) Router \<Rightarrow> string \<Rightarrow> 'h \<Rightarrow> slice \<Rightarrow> ('h, 'c) Router" where
  "Get r rt f middleware = route r get rt f middleware"

definition Post :: "('h, 'c) Router \<Rightarrow> string \<Rightarrow> 'h \<Rightarrow> slice \<Rightarrow> ('h, 'c) Router" where
  "Post r rt f middleware = route r post rt f middleware"

definition Put :: "('h, 'c) Router \<Rightarrow> string \<Rightarrow> 'h \<Rightarrow> slice \<Rightarrow> ('h, 'c) Router" where
  "Put r rt f middleware = route r put rt f middleware"

definition Patch :: "('h, 'c) Router \<Rightarrow> string \<Rightarrow> 'h \<Rightarrow> slice \<Rightarrow> ('h, 'c) Router" where
  "Patch r rt f middleware = route r patch rt f middleware"

definition Delete :: "('h, 'c) Router \<Rightarrow> string \<Rightarrow> 'h \<Rightarrow> slice \<Rightarrow> ('h, 'c) Router" where
  "Delete r rt f middleware = route r delete rt f middleware"

definition Options :: "('h, 'c) Router \<Rightarrow> string \<Rightarrow> 'h \<Rightarrow> slice \<Rightarrow> ('h, 'c) Router" where
  "Options r rt f middleware = route r options rt f middleware"

definition Head :: "('h, 'c) Router \<Rightarrow> string \<Rightarrow> 'h \<Rightarrow> slice \<Rightarrow> ('h, 'c) Router" where
  "Head r rt f middleware = route r head rt f middleware"

definition Trace :: "('h, 'c) Router \<Rightarrow> string \<Rightarrow> 'h \<Rightarrow> slice \<Rightarrow> ('h, 'c) Router" where
  "Trace r rt f middleware = route r trace rt f middleware"

definition Connect :: "('h, 'c) Router \<Rightarrow> string \<Rightarrow> 'h \<Rightarrow> slice \<Rightarrow> ('h, 'c) Router" where
  "Connect r rt f middleware = route r connect rt f middleware"

text \<open>
  The interface \<^verbatim>\<open>Resource\<close> is declared outside the source file; \<^verbatim>\<open>Router.Resource\<close>
  uses its name and its five handlers, which are the fields of this record. The five
  registrations pass no middleware, so each binding holds the nil slice.
\<close>

record 'h Resource =
  GetName :: string
  Index :: 'h
  Get_h :: 'h
  Create :: 'h
  Delete_h :: 'h
  Update :: 'h

definition Resource :: "('h, 'c) Router \<Rightarrow> string \<Rightarrow> 'h Resource \<Rightarrow> ('h, 'c) Router" where
  "Resource r prefix resource =
     (let r1 = Get r (prefix @ GetName resource) (Index resource) nil_slice;
          r2 = Get r1 (prefix @ GetName resource @ ''/:id'') (Get_h resource) nil_slice;
          r3 = Post r2 (prefix @ GetName resource) (Create resource) nil_slice;
          r4 = Delete r3 (prefix @ GetName resource @ ''/:id'') (Delete_h resource) nil_slice
      in Put r4 (prefix @ GetName resource @ ''/:id'') (Update resource) nil_slice)"

section \<open>Merging routers\<close>

text \<open>
  \<^verbatim>\<open>AddMiddleware\<close> appends the elements of the slice it is given to the router's
  global middleware.
\<close>

definition AddMiddleware ::
  "(nat \<Rightarrow> nat \<Rightarrow> nat) \<Rightarrow> ('h, 'c) Router \<Rightarrow> slice \<Rightarrow> 'm heap \<Rightarrow> ('h, 'c) Router \<times> 'm heap" where
  "AddMiddleware grow r fn h =
     (case append_slice grow h (middlewares_r r) (view h fn) of
        (s, h') \<Rightarrow> (r\<lparr>middlewares_r := s\<rparr>, h'))"

text \<open>
  The inner loop of \<^verbatim>\<open>Merge\<close>, over the bindings of one child \<open>router\<close>. The loop
  variable is a copy of the binding, so the assignments to its fields do not reach the
  child's table; the copy of the slice header still points into the array of the child's
  binding, and \<^verbatim>\<open>append\<close> is called on it. The child's global middleware is read from
  the heap as it is when the binding is reached.
\<close>

fun merge_bindings ::
  "(nat \<Rightarrow> nat \<Rightarrow> nat) \<Rightarrow> ('h, 'c) Router \<Rightarrow> 'h Binding list \<Rightarrow>
   ('h, 'c) Router \<times> 'm heap \<Rightarrow> ('h, 'c) Router \<times> 'm heap" where
  "merge_bindings grow router [] (r, h) = (r, h)"
| "merge_bindings grow router (b # bs) (r, h) =
     (case append_slice grow h (middlewares b) (view h (middlewares_r router)) of
        (s, h') \<Rightarrow>
          merge_bindings grow router bs
            (r\<lparr>binding := binding r @ [b\<lparr>match := path router @ match b, middlewares := s\<rparr>]\<rparr>, h'))"

text \<open>
  \<^verbatim>\<open>Merge\<close> takes the routers by pointer; they are taken to be routers other than the
  receiver, so that the table each child shows is the one it had when \<^verbatim>\<open>Merge\<close> was
  called.
\<close>

fun Merge ::
  "(nat \<Rightarrow> nat \<Rightarrow> nat) \<Rightarrow> ('h, 'c) Router \<Rightarrow> ('h, 'c) Router list \<Rightarrow> 'm heap \<Rightarrow>
   ('h, 'c) Router \<times> 'm heap" where
  "Merge grow r [] h = (r, h)"
| "Merge grow r (router # routers) h =
     (case merge_bindings grow router (binding router) (r, h) of
        (r', h') \<Rightarrow> Merge grow r' routers h')"

text \<open>
  A binding as a value: its fields, with the elements its middleware slice shows in a
  given heap. Two states of a router are compared through it.
\<close>

definition chain :: "'m heap \<Rightarrow> 'h Binding \<Rightarrow> 'm list" where
  "chain h b = view h (middlewares b)"

definition table :: "'m heap \<Rightarrow> ('h, 'c) Router \<Rightarrow> (string \<times> string \<times> 'h \<times> 'm list) list" where
  "table h r = map (\<lambda>b. (method b, match b, handler b, chain h b)) (binding r)"

text \<open>A choice of capacity the runtime may make: double the old one, or what is needed.\<close>

definition grow_double :: "nat \<Rightarrow> nat \<Rightarrow> nat" where
  "grow_double old n = (if 2 * old < n then n else 2 * old)"

text \<open>
  Two notions for reasoning about the heap. A slice is valid in a heap when it shows no
  element or its array has been allocated. A later heap agrees with an earlier one when
  every array allocated in the earlier one still has the same cells.
\<close>

definition valid :: "'m heap \<Rightarrow> slice \<Rightarrow> bool" where
  "valid h s = (len s = 0 \<or> ptr s < next_array h)"

definition agree :: "'m heap \<Rightarrow> 'm heap \<Rightarrow> bool" where
  "agree h h' = (next_array h \<le> next_array h' \<and> (\<forall>a<next_array h. arrays h' a = arrays h a))"

section \<open>Requests\<close>

text \<open>
  Of a request the router reads the method, the URL in its string form and the
  context. The URL is the one of a request a server receives: a path and a query, with
  no scheme, host or fragment, and a path that needs no escaping; \<^verbatim>\<open>URL.String()\<close> is
  then the path, followed by \<^verbatim>\<open>?\<close> and the query when there is one.

  A context is the chain of key/value pairs that \<^verbatim>\<open>context.WithValue\<close> builds: the
  newest pair first, and \<^verbatim>\<open>Value\<close> returns the value of the first pair with the key.
\<close>

record URL =
  Path :: string
  ForceQuery :: bool
  RawQuery :: string

definition URL_String :: "URL \<Rightarrow> string" where
  "URL_String u = Path u @ (if ForceQuery u \<or> RawQuery u \<noteq> [] then ''?'' @ RawQuery u else [])"

type_synonym Context = "(string \<times> string) list"

definition WithValue :: "Context \<Rightarrow> string \<Rightarrow> string \<Rightarrow> Context" where
  "WithValue c key val = (key, val) # c"

definition Value :: "Context \<Rightarrow> string \<Rightarrow> string option" where
  "Value c key = map_of c key"

record Request =
  Method :: string
  URL :: URL
  ctx :: Context

definition WithContext :: "Request \<Rightarrow> Context \<Rightarrow> Request" where
  "WithContext req c = req\<lparr>ctx := c\<rparr>"

definition PathParam :: "Request \<Rightarrow> string \<Rightarrow> string option" where
  "PathParam req key = Value (ctx req) key"

section \<open>Compiled patterns\<close>

text \<open>
  The pattern library (\<^verbatim>\<open>path-to-regexp\<close>, with the regular expressions of \<^verbatim>\<open>regexp2\<close>)
  is not part of the source: the dispatcher takes the compiler as a parameter \<open>pc\<close>.
  Compiling a pattern fails (\<open>None\<close>) or gives the tokens, one name for each parameter
  of the pattern, and a matcher from a string to the texts of the groups of a match,
  group 0 (the whole match) first. The router passes no options, so the expression is
  anchored at the start of the string and a match starts at index 0.
\<close>

record CompiledPattern =
  tokens :: "string list"
  regexp :: "string \<Rightarrow> string list option"

record Match =
  Match_Index :: nat
  Groups :: "string list"

definition FindStringMatch :: "CompiledPattern \<Rightarrow> string \<Rightarrow> Match option" where
  "FindStringMatch cp s = map_option (\<lambda>gs. \<lparr>Match_Index = 0, Groups = gs\<rparr>) (regexp cp s)"

text \<open>
  Modelled from the spec: the pattern compiler of section 4.1, for the patterns the spec
  describes: literal segments and segments \<^verbatim>\<open>:name\<close>, separated by \<^verbatim>\<open>/\<close>. A parameter
  segment with no name is malformed. A literal segment matches itself; a parameter
  segment captures a segment that is not empty and holds none of \<^verbatim>\<open>/\<close>, \<^verbatim>\<open>#\<close>, \<^verbatim>\<open>?\<close>.
  It stands for the library wherever a theorem is evaluated at a concrete input.
\<close>

fun split_on :: "char \<Rightarrow> string \<Rightarrow> string list" where
  "split_on d [] = [[]]"
| "split_on d (c # cs) =
     (if c = d then [] # split_on d cs
      else (case split_on d cs of [] \<Rightarrow> [[c]] | s # ss \<Rightarrow> (c # s) # ss))"

definition is_param :: "string \<Rightarrow> bool" where
  "is_param seg = (case seg of [] \<Rightarrow> False | c # _ \<Rightarrow> c = CHR '':'')"

fun match_segments :: "string list \<Rightarrow> string list \<Rightarrow> string list option" where
  "match_segments [] [] = Some []"
| "match_segments (p # ps) (s # ss) =
     (if is_param p then
        (if s \<noteq> [] \<and> CHR ''#'' \<notin> set s \<and> CHR ''?'' \<notin> set s
         then map_option ((#) s) (match_segments ps ss) else None)
      else if p = s then match_segments ps ss else None)"
| "match_segments _ _ = None"

definition PathToRegexp :: "string \<Rightarrow> CompiledPattern option" where
  "PathToRegexp p =
     (let segs = split_on CHR ''/'' p in
      if '':'' \<in> set segs then None
      else Some \<lparr>tokens = map tl (filter is_param segs),
                 regexp = (\<lambda>s. map_option ((#) s) (match_segments segs (split_on CHR ''/'' s)))\<rparr>)"

section \<open>Dispatch\<close>

text \<open>
  What the dispatcher does to the world is the calls it makes: to middleware, and to a
  handler, with the request it hands to it. The calls are opaque: what a middleware or a
  handler does is not the router's, and a middleware is taken to leave the request it is
  given as it is. A run of \<^verbatim>\<open>ServeHTTP\<close> is the list of the calls made, in order, and
  the panic that ended it, if one did. The source has no other statement that acts on the
  response writer.
\<close>

datatype ('h, 'm) event = MiddlewareCall 'm | HandlerCall 'h Request

datatype panic = PatternCompilePanic | IndexOutOfRangePanic

text \<open>
  The loop over the groups of the match. Every group, group 0 included, is stored under
  the name of the token at the index where the match starts; the index is checked with
  \<open>\<ge>\<close>, so a token list as long as the index passes the check and the read panics.
\<close>

fun bind_groups :: "string list \<Rightarrow> Match \<Rightarrow> string list \<Rightarrow> Context \<Rightarrow> panic + Context" where
  "bind_groups toks m [] c = Inr c"
| "bind_groups toks m (g # gs) c =
     (if length toks \<ge> Match_Index m \<and> length toks > 0 then
        (if Match_Index m < length toks
         then bind_groups toks m gs (WithValue c (toks ! Match_Index m) g)
         else Inl IndexOutOfRangePanic)
      else bind_groups toks m gs c)"

text \<open>
  The loop over the bindings. \<^verbatim>\<open>Must\<close> panics when the pattern does not compile. The
  pattern compiled is the router's base path followed by the binding's pattern, and it is
  matched against \<^verbatim>\<open>req.URL.String()\<close>. After the handler the loop is left.
\<close>

fun scan ::
  "(string \<Rightarrow> CompiledPattern option) \<Rightarrow> 'm heap \<Rightarrow> ('h, 'c) Router \<Rightarrow> Request \<Rightarrow>
   'h Binding list \<Rightarrow> ('h, 'm) event list \<times> panic option" where
  "scan pc h r req [] = ([], None)"
| "scan pc h r req (b # bs) =
     (if Method req = method b then
        (case pc (path r @ match b) of
           None \<Rightarrow> ([], Some PatternCompilePanic)
         | Some cp \<Rightarrow>
             (case FindStringMatch cp (URL_String (URL req)) of
                None \<Rightarrow> scan pc h r req bs
              | Some m \<Rightarrow>
                  (let calls = map MiddlewareCall (view h (middlewares_r r))
                               @ map MiddlewareCall (view h (middlewares b))
                   in case bind_groups (tokens cp) m (Groups m) (ctx req) of
                        Inl e \<Rightarrow> (calls, Some e)
                      | Inr c \<Rightarrow> (calls @ [HandlerCall (handler b) (WithContext req c)], None))))
      else scan pc h r req bs)"

definition ServeHTTP ::
  "(string \<Rightarrow> CompiledPattern option) \<Rightarrow> 'm heap \<Rightarrow> ('h, 'c) Router \<Rightarrow> Request \<Rightarrow>
   ('h, 'm) event list \<times> panic option" where
  "ServeHTTP pc h r req = scan pc h r req (binding r)"

text \<open>
  A binding is selected by a request when the methods are equal and the pattern (base
  path and binding pattern) compiles and matches the URL of the request.
\<close>

definition selects ::
  "(string \<Rightarrow> CompiledPattern option) \<Rightarrow> ('h, 'c) Router \<Rightarrow> Request \<Rightarrow> 'h Binding \<Rightarrow> bool" where
  "selects pc r req b =
     (Method req = method b \<and>
      (case pc (path r @ match b) of
         None \<Rightarrow> False
       | Some cp \<Rightarrow> FindStringMatch cp (URL_String (URL req)) \<noteq> None))"

section \<open>Example inputs\<close>

text \<open>
  Concrete routers, heaps and requests at which the theorems below are evaluated.
  Handlers and middleware are named by strings. In \<open>heap0\<close> two arrays are allocated:
  array 0 holds the middleware \<open>m1\<close>, \<open>m2\<close> and array 1 holds \<open>g\<close>.
\<close>

definition heap0 :: "string heap" where
  "heap0 = \<lparr>arrays = (\<lambda>a i. [])(0 := store_at (\<lambda>i. []) 0 [''m1'', ''m2''],
                                    1 := store_at (\<lambda>i. []) 0 [''g'']),
            next_array = 2\<rparr>"

definition empty_router :: "(string, unit) Router" where
  "empty_router = \<lparr>path = [], binding = [], container = (), middlewares_r = nil_slice\<rparr>"

text \<open>
  A router with the global middleware \<open>g\<close> and three GET routes, the second with the
  middleware \<open>m1\<close>, \<open>m2\<close>; the second and the third both match \<^verbatim>\<open>/user/42\<close>.
\<close>

definition site :: "(string, unit) Router" where
  "site = \<lparr>path = [],
           binding = [\<lparr>handler = ''ha'', match = ''/a'', method = ''GET'', middlewares = nil_slice\<rparr>,
                      \<lparr>handler = ''hu'', match = ''/user/:id'', method = ''GET'',
                         middlewares = \<lparr>ptr = 0, off = 0, len = 2, cap = 2\<rparr>\<rparr>,
                      \<lparr>handler = ''hx'', match = ''/user/42'', method = ''GET'', middlewares = nil_slice\<rparr>],
           container = (),
           middlewares_r = \<lparr>ptr = 1, off = 0, len = 1, cap = 1\<rparr>\<rparr>"

text \<open>A router whose first route has a malformed pattern (a parameter with no name).\<close>

definition broken :: "(string, unit) Router" where
  "broken = Get (Get empty_router ''/:'' ''hbad'' nil_slice) ''/a'' ''ha'' nil_slice"

text \<open>
  A child router built through the registration functions, as in the program
  \<^verbatim>\<open>all := []MiddlewareFunc{m1, m2}; api.Base("/v1"); api.Get("/a", ha, all[:1]...);\<close>
  \<^verbatim>\<open>api.Get("/b", hb, all...); api.AddMiddleware([]MiddlewareFunc{g})\<close>:
  the middleware slices of the two routes share the array \<open>all\<close> (array 0 of \<open>heap0\<close>),
  the first with a spare cell. The result is the router and the heap after the calls.
\<close>

definition api_setup :: "(string, unit) Router \<times> string heap" where
  "api_setup =
     AddMiddleware grow_double
       (Get (Get (Base empty_router ''/v1'')
               ''/a'' ''ha'' \<lparr>ptr = 0, off = 0, len = 1, cap = 2\<rparr>)
          ''/b'' ''hb'' \<lparr>ptr = 0, off = 0, len = 2, cap = 2\<rparr>)
       \<lparr>ptr = 1, off = 0, len = 1, cap = 1\<rparr> heap0"

definition request :: "string \<Rightarrow> string \<Rightarrow> string \<Rightarrow> Request" where
  "request m p q = \<lparr>Method = m, URL = \<lparr>Path = p, ForceQuery = False, RawQuery = q\<rparr>, ctx = []\<rparr>"

section \<open>Properties of registration\<close>

text \<open>
  C10: \<^verbatim>\<open>Base(p1)\<close> followed by \<^verbatim>\<open>Base(p2)\<close> leaves the base path equal to \<open>p2\<close>: the
  second prefix replaces the first, nothing is concatenated, and the bindings, the
  global middleware and the container of the router are what they were.
\<close>

theorem Base_replaces:
  "path (Base (Base r p1) p2) = p2
   \<and> binding (Base (Base r p1) p2) = binding r
   \<and> middlewares_r (Base (Base r p1) p2) = middlewares_r r
   \<and> container (Base (Base r p1) p2) = container r
   \<and> Base (Base r p1) p2 = r\<lparr>path := p2\<rparr>"
  by (simp add: Base_def)


section \<open>Properties of dispatch\<close>

lemmas ev = heap0_def site_def request_def selects_def ServeHTTP_def PathToRegexp_def
  FindStringMatch_def URL_String_def is_param_def view_def store_at_def nil_slice_def
  WithContext_def WithValue_def Let_def

lemmas ev2 = ev empty_router_def broken_def Get_def route_def get_def

lemma bind_groups_anchored:
  "Match_Index m = 0 \<Longrightarrow> \<exists>c'. bind_groups toks m gs c = Inr c'"
  by (induction gs arbitrary: c) auto

lemma FindStringMatch_Index:
  "FindStringMatch cp s = Some m \<Longrightarrow> Match_Index m = 0"
  by (auto simp: FindStringMatch_def)

lemma scan_skip:
  "\<forall>b'\<in>set pre. \<not> selects pc r req b' \<and> (Method req = method b' \<longrightarrow> pc (path r @ match b') \<noteq> None)
   \<Longrightarrow> scan pc h r req (pre @ rest) = scan pc h r req rest"
  by (induction pre) (auto simp: selects_def split: option.splits)


lemma scan_none:
  "\<forall>b\<in>set bs. \<not> selects pc r req b \<Longrightarrow>
     scan pc h r req bs = ([], None) \<or> scan pc h r req bs = ([], Some PatternCompilePanic)"
  by (induction bs) (auto simp: selects_def split: option.splits)









text \<open>
  C2 (as amended): registration never fails and never compiles the pattern: whatever the
  pattern, \<^verbatim>\<open>route\<close> appends the binding. A malformed pattern fails at request time:
  when the scan reaches a binding that has the request's method and a pattern (base path
  and binding pattern) that does not compile, dispatch panics. Dispatch over a table all of
  whose patterns compile never fails on the compilation of a pattern.
\<close>

theorem pattern_failure_at_request_time:
  "binding (route r meth rt f mw) = binding r @ [\<lparr>handler = f, match = rt, method = meth, middlewares = mw\<rparr>]
   \<and> ((\<forall>b\<in>set (binding r). pc (path r @ match b) \<noteq> None)
        \<longrightarrow> snd (ServeHTTP pc h r req) \<noteq> Some PatternCompilePanic)
   \<and> (binding r = pre @ b # rest
        \<and> (\<forall>b'\<in>set pre. \<not> selects pc r req b' \<and> (Method req = method b' \<longrightarrow> pc (path r @ match b') \<noteq> None))
        \<and> Method req = method b \<and> pc (path r @ match b) = None
        \<longrightarrow> ServeHTTP pc h r req = ([], Some PatternCompilePanic))"
proof -
  have reg: "binding (route r meth rt f mw) = binding r @ [\<lparr>handler = f, match = rt, method = meth, middlewares = mw\<rparr>]"
    by (simp add: route_def)
  have ok: "snd (scan pc h r req bs) \<noteq> Some PatternCompilePanic"
    if "\<forall>b\<in>set bs. pc (path r @ match b) \<noteq> None" for bs
    using that
  proof (induction bs)
    case Nil
    then show ?case by simp
  next
    case (Cons b bs)
    then obtain cp where cp: "pc (path r @ match b) = Some cp" by auto
    show ?case
    proof (cases "FindStringMatch cp (URL_String (URL req))")
      case None
      with Cons cp show ?thesis by simp
    next
      case (Some m)
      from bind_groups_anchored [OF FindStringMatch_Index [OF Some]]
      obtain c where "bind_groups (tokens cp) m (Groups m) (ctx req) = Inr c" by blast
      with Cons cp Some show ?thesis by (simp add: Let_def)
    qed
  qed
  have bad: "ServeHTTP pc h r req = ([], Some PatternCompilePanic)"
    if "binding r = pre @ b # rest"
      "\<forall>b'\<in>set pre. \<not> selects pc r req b' \<and> (Method req = method b' \<longrightarrow> pc (path r @ match b') \<noteq> None)"
      "Method req = method b" "pc (path r @ match b) = None"
  proof -
    have "scan pc h r req (pre @ b # rest) = scan pc h r req (b # rest)"
      using that(2) by (rule scan_skip)
    with that show ?thesis by (simp add: ServeHTTP_def)
  qed
  from reg ok bad show ?thesis by (simp add: ServeHTTP_def)
qed

theorem pattern_failure_at_request_time_witness:
  "PathToRegexp (path site @ match (binding site ! 0)) \<noteq> None
   \<and> PathToRegexp (path site @ match (binding site ! 1)) \<noteq> None
   \<and> PathToRegexp (path site @ match (binding site ! 2)) \<noteq> None
   \<and> length (binding site) = 3
   \<and> snd (ServeHTTP PathToRegexp heap0 site (request ''GET'' ''/user/42'' [])) \<noteq> Some PatternCompilePanic
   \<and> binding broken = [] @ (binding broken ! 0) # [binding broken ! 1]
   \<and> Method (request ''GET'' ''/a'' []) = method (binding broken ! 0)
   \<and> PathToRegexp (path broken @ match (binding broken ! 0)) = None
   \<and> ServeHTTP PathToRegexp heap0 broken (request ''GET'' ''/a'' []) = ([], Some PatternCompilePanic)"
proof -
  have 1: "\<forall>b\<in>set (binding site). PathToRegexp (path site @ match b) \<noteq> None"
    by (simp add: ev)
  have 2: "binding broken = [] @ (binding broken ! 0) # [binding broken ! 1]
      \<and> (\<forall>b'\<in>set []. \<not> selects PathToRegexp broken (request ''GET'' ''/a'' []) b'
            \<and> (Method (request ''GET'' ''/a'' []) = method b' \<longrightarrow> PathToRegexp (path broken @ match b') \<noteq> None))
      \<and> Method (request ''GET'' ''/a'' []) = method (binding broken ! 0)
      \<and> PathToRegexp (path broken @ match (binding broken ! 0)) = None"
    by (simp add: ev2)
  from pattern_failure_at_request_time [of site _ _ _ _ PathToRegexp heap0 "request ''GET'' ''/user/42'' []"] 1
  have a: "snd (ServeHTTP PathToRegexp heap0 site (request ''GET'' ''/user/42'' [])) \<noteq> Some PatternCompilePanic"
    by blast
  from pattern_failure_at_request_time [of broken _ _ _ _ PathToRegexp heap0 "request ''GET'' ''/a'' []"
      "[]" "binding broken ! 0" "[binding broken ! 1]"] 2
  have b: "ServeHTTP PathToRegexp heap0 broken (request ''GET'' ''/a'' []) = ([], Some PatternCompilePanic)"
    by blast
  have 3: "PathToRegexp (path site @ match (binding site ! 0)) \<noteq> None
      \<and> PathToRegexp (path site @ match (binding site ! 1)) \<noteq> None
      \<and> PathToRegexp (path site @ match (binding site ! 2)) \<noteq> None
      \<and> length (binding site) = 3"
    by (simp add: ev)
  from 2 3 a b show ?thesis by blast
qed

text \<open>
  C2 as stated fails: registering the malformed pattern \<^verbatim>\<open>/:\<close> succeeds, the binding is
  in the table, and the failure occurs when a GET request is dispatched.
\<close>

theorem registration_accepts_malformed_counterexample:
  "PathToRegexp ''/:'' = None
   \<and> binding (Get empty_router ''/:'' ''hbad'' nil_slice)
       = [\<lparr>handler = ''hbad'', match = ''/:'', method = ''GET'', middlewares = nil_slice\<rparr>]
   \<and> ServeHTTP PathToRegexp heap0 (Get empty_router ''/:'' ''hbad'' nil_slice) (request ''GET'' ''/x'' [])
       = ([], Some PatternCompilePanic)"
  by (simp add: ev2)

text \<open>
  C3: dispatch matches the pattern against the string form of the URL, which holds the
  query, not against the path. Two GET requests for the path \<^verbatim>\<open>/user/42\<close>, one with no
  query and one with the query \<^verbatim>\<open>x=1\<close>, are dispatched differently: the first reaches the
  handler of \<^verbatim>\<open>/user/:id\<close>, the second reaches no handler.
\<close>

theorem query_string_changes_dispatch:
  "Method (request ''GET'' ''/user/42'' ''x=1'') = Method (request ''GET'' ''/user/42'' [])
   \<and> Path (URL (request ''GET'' ''/user/42'' ''x=1'')) = Path (URL (request ''GET'' ''/user/42'' []))
   \<and> fst (ServeHTTP PathToRegexp heap0 site (request ''GET'' ''/user/42'' []))
       = [MiddlewareCall ''g'', MiddlewareCall ''m1'', MiddlewareCall ''m2'',
          HandlerCall ''hu'' (WithContext (request ''GET'' ''/user/42'' [])
                                [(''id'', ''42''), (''id'', ''/user/42'')])]
   \<and> ServeHTTP PathToRegexp heap0 site (request ''GET'' ''/user/42'' ''x=1'') = ([], None)
   \<and> URL_String (URL (request ''GET'' ''/user/42'' ''x=1'')) = ''/user/42?x=1''"
  by (simp add: ev upt_rec)




text \<open>
  C7: when the first binding the request selects has the pattern \<^verbatim>\<open>/user/:id\<close> (with the
  base path) and the URL of the request is \<^verbatim>\<open>/user/42\<close>, for which the pattern library
  gives the token \<open>id\<close> and the groups \<^verbatim>\<open>/user/42\<close>, \<^verbatim>\<open>42\<close>, the request handed to the
  handler has \<open>PathParam\<close> \<open>id\<close> equal to \<open>42\<close>, and no other key that the incoming
  request did not have. For every request and every key that is not bound in its context
  \<open>PathParam\<close> is absent.
\<close>

theorem path_param_bound:
  assumes "binding r = pre @ b # rest"
    and "\<forall>b'\<in>set pre. \<not> selects pc r req b' \<and> (Method req = method b' \<longrightarrow> pc (path r @ match b') \<noteq> None)"
    and "Method req = method b"
    and "path r @ match b = ''/user/:id''"
    and "URL_String (URL req) = ''/user/42''"
    and "pc ''/user/:id'' = Some cp"
    and "tokens cp = [''id'']"
    and "regexp cp ''/user/42'' = Some [''/user/42'', ''42'']"
  shows "(\<exists>calls req'. ServeHTTP pc h r req = (calls @ [HandlerCall (handler b) req'], None)
            \<and> PathParam req' ''id'' = Some ''42''
            \<and> (\<forall>key. key \<noteq> ''id'' \<and> key \<notin> fst ` set (ctx req) \<longrightarrow> PathParam req' key = None))
         \<and> (\<forall>q key. key \<notin> fst ` set (ctx q) \<longrightarrow> PathParam q key = None)"
proof -
  have absent: "\<forall>q key. key \<notin> fst ` set (ctx q) \<longrightarrow> PathParam q key = None"
    by (simp add: PathParam_def Value_def map_of_eq_None_iff)
  have "scan pc h r req (pre @ b # rest) = scan pc h r req (b # rest)"
    using assms(2) by (rule scan_skip)
  with assms have run: "ServeHTTP pc h r req =
      ((map MiddlewareCall (view h (middlewares_r r)) @ map MiddlewareCall (view h (middlewares b)))
        @ [HandlerCall (handler b)
             (WithContext req ((''id'', ''42'') # (''id'', ''/user/42'') # ctx req))], None)"
    by (simp add: ServeHTTP_def FindStringMatch_def WithValue_def)
  have "PathParam (WithContext req ((''id'', ''42'') # (''id'', ''/user/42'') # ctx req)) ''id'' = Some ''42''"
    by (simp add: PathParam_def Value_def WithContext_def)
  moreover have "\<forall>key. key \<noteq> ''id'' \<and> key \<notin> fst ` set (ctx req) \<longrightarrow>
      PathParam (WithContext req ((''id'', ''42'') # (''id'', ''/user/42'') # ctx req)) key = None"
    by (simp add: PathParam_def Value_def WithContext_def map_of_eq_None_iff)
  ultimately show ?thesis using run absent by blast
qed

theorem path_param_bound_witness:
  "binding site = [binding site ! 0] @ (binding site ! 1) # [binding site ! 2]
   \<and> path site @ match (binding site ! 1) = ''/user/:id''
   \<and> URL_String (URL (request ''GET'' ''/user/42'' [])) = ''/user/42''
   \<and> map_option tokens (PathToRegexp ''/user/:id'') = Some [''id'']
   \<and> (\<exists>calls req'. ServeHTTP PathToRegexp heap0 site (request ''GET'' ''/user/42'' [])
                       = (calls @ [HandlerCall ''hu'' req'], None)
          \<and> PathParam req' ''id'' = Some ''42'' \<and> PathParam req' ''name'' = None)"
proof -
  obtain cp where cp: "PathToRegexp ''/user/:id'' = Some cp" "tokens cp = [''id'']"
    "regexp cp ''/user/42'' = Some [''/user/42'', ''42'']"
    by (simp add: PathToRegexp_def is_param_def)
  have 1: "binding site = [binding site ! 0] @ (binding site ! 1) # [binding site ! 2]"
    by (simp add: site_def)
  have 2: "\<forall>b'\<in>set [binding site ! 0]. \<not> selects PathToRegexp site (request ''GET'' ''/user/42'' []) b'
       \<and> (Method (request ''GET'' ''/user/42'' []) = method b' \<longrightarrow> PathToRegexp (path site @ match b') \<noteq> None)"
    by (simp add: ev)
  have 3: "Method (request ''GET'' ''/user/42'' []) = method (binding site ! 1)"
    by (simp add: site_def request_def)
  have 4: "path site @ match (binding site ! 1) = ''/user/:id''"
    by (simp add: site_def)
  have 5: "URL_String (URL (request ''GET'' ''/user/42'' [])) = ''/user/42''"
    by (simp add: request_def URL_String_def)
  have 6: "handler (binding site ! 1) = ''hu''" "ctx (request ''GET'' ''/user/42'' []) = []"
    by (simp_all add: site_def request_def)
  from path_param_bound [OF 1 2 3 4 5 cp, of heap0] 1 4 5 6 cp show ?thesis
    by (auto simp: )
qed

text \<open>
  C8: when no binding of the table has both the method of the request and a pattern that
  matches it, dispatch makes no call: no handler, no global middleware, no middleware of
  a binding; the dispatcher does nothing else to the response. The run ends normally, or
  with the panic of a pattern that does not compile.
\<close>

theorem no_match_no_calls:
  "\<forall>b\<in>set (binding r). \<not> selects pc r req b \<Longrightarrow>
     ServeHTTP pc h r req = ([], None) \<or> ServeHTTP pc h r req = ([], Some PatternCompilePanic)"
  unfolding ServeHTTP_def by (rule scan_none)

theorem no_match_no_calls_witness:
  "length (binding site) = 3
   \<and> \<not> selects PathToRegexp site (request ''POST'' ''/user/42'' []) (binding site ! 0)
   \<and> \<not> selects PathToRegexp site (request ''POST'' ''/user/42'' []) (binding site ! 1)
   \<and> \<not> selects PathToRegexp site (request ''POST'' ''/user/42'' []) (binding site ! 2)
   \<and> \<not> selects PathToRegexp site (request ''GET'' ''/nowhere'' []) (binding site ! 0)
   \<and> \<not> selects PathToRegexp site (request ''GET'' ''/nowhere'' []) (binding site ! 1)
   \<and> \<not> selects PathToRegexp site (request ''GET'' ''/nowhere'' []) (binding site ! 2)
   \<and> fst (ServeHTTP PathToRegexp heap0 site (request ''POST'' ''/user/42'' [])) = []
   \<and> fst (ServeHTTP PathToRegexp heap0 site (request ''GET'' ''/nowhere'' [])) = []"
proof -
  have 1: "\<forall>b\<in>set (binding site). \<not> selects PathToRegexp site (request ''POST'' ''/user/42'' []) b"
    by (simp add: ev)
  have 2: "\<forall>b\<in>set (binding site). \<not> selects PathToRegexp site (request ''GET'' ''/nowhere'' []) b"
    by (simp add: ev)
  have 3: "length (binding site) = 3
      \<and> \<not> selects PathToRegexp site (request ''POST'' ''/user/42'' []) (binding site ! 0)
      \<and> \<not> selects PathToRegexp site (request ''POST'' ''/user/42'' []) (binding site ! 1)
      \<and> \<not> selects PathToRegexp site (request ''POST'' ''/user/42'' []) (binding site ! 2)
      \<and> \<not> selects PathToRegexp site (request ''GET'' ''/nowhere'' []) (binding site ! 0)
      \<and> \<not> selects PathToRegexp site (request ''GET'' ''/nowhere'' []) (binding site ! 1)
      \<and> \<not> selects PathToRegexp site (request ''GET'' ''/nowhere'' []) (binding site ! 2)"
    by (simp add: ev)
  from no_match_no_calls [OF 1, of heap0] no_match_no_calls [OF 2, of heap0] 3
  show ?thesis by auto
qed

section \<open>Properties of the resource expansion\<close>

text \<open>
  C9: for a resource named \<open>widget\<close> and the prefix \<^verbatim>\<open>/v1/\<close>, \<^verbatim>\<open>Resource\<close> appends
  exactly five bindings to the table: GET \<^verbatim>\<open>/v1/widget\<close>, GET \<^verbatim>\<open>/v1/widget/:id\<close>,
  POST \<^verbatim>\<open>/v1/widget\<close>, DELETE \<^verbatim>\<open>/v1/widget/:id\<close>, PUT \<^verbatim>\<open>/v1/widget/:id\<close>, in this
  order, bound to the handlers Index, Get, Create, Delete and Update of the resource.
\<close>

theorem Resource_expansion:
  assumes "GetName res = ''widget''"
  shows "binding (Resource r ''/v1/'' res) = binding r @
           [\<lparr>handler = Index res, match = ''/v1/widget'', method = ''GET'', middlewares = nil_slice\<rparr>,
            \<lparr>handler = Get_h res, match = ''/v1/widget/:id'', method = ''GET'', middlewares = nil_slice\<rparr>,
            \<lparr>handler = Create res, match = ''/v1/widget'', method = ''POST'', middlewares = nil_slice\<rparr>,
            \<lparr>handler = Delete_h res, match = ''/v1/widget/:id'', method = ''DELETE'', middlewares = nil_slice\<rparr>,
            \<lparr>handler = Update res, match = ''/v1/widget/:id'', method = ''PUT'', middlewares = nil_slice\<rparr>]"
  using assms
  by (simp add: Resource_def Get_def Post_def Delete_def Put_def route_def get_def post_def
      delete_def put_def Let_def)

theorem Resource_expansion_witness:
  "GetName \<lparr>GetName = ''widget'', Index = ''index'', Get_h = ''get'', Create = ''create'',
             Delete_h = ''delete'', Update = ''update''\<rparr> = ''widget''
   \<and> binding (Resource empty_router ''/v1/''
        \<lparr>GetName = ''widget'', Index = ''index'', Get_h = ''get'', Create = ''create'',
          Delete_h = ''delete'', Update = ''update''\<rparr>) =
           [\<lparr>handler = ''index'', match = ''/v1/widget'', method = ''GET'', middlewares = nil_slice\<rparr>,
            \<lparr>handler = ''get'', match = ''/v1/widget/:id'', method = ''GET'', middlewares = nil_slice\<rparr>,
            \<lparr>handler = ''create'', match = ''/v1/widget'', method = ''POST'', middlewares = nil_slice\<rparr>,
            \<lparr>handler = ''delete'', match = ''/v1/widget/:id'', method = ''DELETE'', middlewares = nil_slice\<rparr>,
            \<lparr>handler = ''update'', match = ''/v1/widget/:id'', method = ''PUT'', middlewares = nil_slice\<rparr>]"
proof -
  have 1: "GetName \<lparr>GetName = ''widget'', Index = ''index'', Get_h = ''get'', Create = ''create'',
             Delete_h = ''delete'', Update = ''update''\<rparr> = ''widget''" by simp
  from Resource_expansion [OF 1, of empty_router] 1 show ?thesis
    by (simp add: empty_router_def)
qed

section \<open>Properties of merging\<close>

lemma store_at_Nil [simp]: "store_at arr p [] = arr"
  by (rule ext) (auto simp: store_at_def)

lemma view_store_at_0: "map (store_at arr 0 ys) [0..<length ys] = ys"
  by (rule nth_equalityI) (simp_all add: store_at_def)

text \<open>
  Whatever the sharing, the slice \<^verbatim>\<open>append\<close> returns shows the old elements followed by
  the new ones; so \<^verbatim>\<open>AddMiddleware\<close> keeps the global middleware in the order of
  registration.
\<close>

lemma append_slice_view:
  assumes "append_slice grow h s xs = (s', h')"
  shows "view h' s' = view h s @ xs"
proof (cases "len s + length xs \<le> cap s")
  case True
  with assms have s': "s' = s\<lparr>len := len s + length xs\<rparr>"
    and h': "arrays h' (ptr s) = store_at (arrays h (ptr s)) (off s + len s) xs"
    by (auto simp: append_slice_def)
  show ?thesis
    by (rule nth_equalityI) (auto simp: s' h' view_def store_at_def nth_append)
next
  case False
  with assms have "s' = \<lparr>ptr = next_array h, off = 0, len = length (view h s @ xs),
        cap = max (grow (cap s) (length (view h s @ xs))) (length (view h s @ xs))\<rparr>"
    and "arrays h' (next_array h) = store_at (arrays h (next_array h)) 0 (view h s @ xs)"
    by (auto simp: append_slice_def Let_def)
  then show ?thesis
    using view_store_at_0 [of "arrays h (next_array h)" "view h s @ xs"]
    by (simp add: view_def)
qed

lemma AddMiddleware_view:
  assumes "AddMiddleware grow r fn h = (r', h')"
  shows "view h' (middlewares_r r') = view h (middlewares_r r) @ view h fn"
    and "binding r' = binding r" and "path r' = path r"
  using assms append_slice_view [of grow h "middlewares_r r" "view h fn"]
  by (auto simp: AddMiddleware_def split: prod.splits)

lemma agree_refl: "agree h h"
  by (simp add: agree_def)

lemma agree_trans: "agree h1 h2 \<Longrightarrow> agree h2 h3 \<Longrightarrow> agree h1 h3"
  by (auto simp: agree_def)

lemma agree_view: "agree h h' \<Longrightarrow> valid h s \<Longrightarrow> view h' s = view h s"
  by (auto simp: agree_def valid_def view_def)

lemma agree_valid: "agree h h' \<Longrightarrow> valid h s \<Longrightarrow> valid h' s"
  by (auto simp: agree_def valid_def)

lemma append_slice_unshared:
  assumes "append_slice grow h s xs = (s', h')"
    and "xs = [] \<or> len s = cap s"
    and "valid h s"
  shows "view h' s' = view h s @ xs \<and> agree h h' \<and> valid h' s'"
proof (cases "len s + length xs \<le> cap s")
  case True
  with assms(2) have "xs = []" by auto
  with True assms(1) have "s' = s" "arrays h' = arrays h" "next_array h' = next_array h"
    by (auto simp: append_slice_def)
  with \<open>xs = []\<close> assms(3) show ?thesis
    by (simp add: view_def agree_def valid_def)
next
  case False
  with assms(1) have s': "s' = \<lparr>ptr = next_array h, off = 0, len = length (view h s @ xs),
        cap = max (grow (cap s) (length (view h s @ xs))) (length (view h s @ xs))\<rparr>"
    and h': "h' = h\<lparr>arrays := (arrays h)(next_array h := store_at (arrays h (next_array h)) 0 (view h s @ xs)),
                    next_array := Suc (next_array h)\<rparr>"
    by (auto simp: append_slice_def Let_def)
  have "view h' s' = view h s @ xs"
    unfolding s' h' view_def using view_store_at_0 [of _ "view h s @ xs"]
    by (simp add: view_def)
  moreover have "agree h h'" by (simp add: h' agree_def)
  moreover have "valid h' s'" by (simp add: s' h' valid_def)
  ultimately show ?thesis by blast
qed


lemma merge_bindings_unshared:
  assumes "merge_bindings grow c bs (r, h) = (r', h')"
    and "valid h (middlewares_r c)"
    and "\<forall>b\<in>set bs. valid h (middlewares b)
           \<and> (len (middlewares_r c) = 0 \<or> len (middlewares b) = cap (middlewares b))"
  shows "\<exists>new. r' = r\<lparr>binding := binding r @ new\<rparr>
           \<and> map (\<lambda>b. (method b, match b, handler b, chain h' b)) new
               = map (\<lambda>b. (method b, path c @ match b, handler b, chain h b @ view h (middlewares_r c))) bs
           \<and> (\<forall>b\<in>set new. valid h' (middlewares b))
           \<and> agree h h'"
  using assms
proof (induction bs arbitrary: r h)
  case Nil
  then show ?case by (simp add: agree_refl)
next
  case (Cons b bs)
  obtain s1 h1 where app: "append_slice grow h (middlewares b) (view h (middlewares_r c)) = (s1, h1)"
    by (cases "append_slice grow h (middlewares b) (view h (middlewares_r c))")
  let ?b1 = "b\<lparr>match := path c @ match b, middlewares := s1\<rparr>"
  from Cons.prems(3) have vb: "valid h (middlewares b)"
    and full: "view h (middlewares_r c) = [] \<or> len (middlewares b) = cap (middlewares b)"
    by (auto simp: view_def)
  from append_slice_unshared [OF app full vb]
  have v1: "view h1 s1 = view h (middlewares b) @ view h (middlewares_r c)"
    and a1: "agree h h1" and val1: "valid h1 s1" by auto
  from Cons.prems(1) app
  have rec: "merge_bindings grow c bs (r\<lparr>binding := binding r @ [?b1]\<rparr>, h1) = (r', h')" by simp
  have "valid h1 (middlewares_r c)" using a1 Cons.prems(2) by (rule agree_valid)
  moreover have "\<forall>b\<in>set bs. valid h1 (middlewares b)
      \<and> (len (middlewares_r c) = 0 \<or> len (middlewares b) = cap (middlewares b))"
    using Cons.prems(3) a1 by (auto intro: agree_valid)
  ultimately obtain new where new: "r' = r\<lparr>binding := binding r @ [?b1]\<rparr>\<lparr>binding := binding (r\<lparr>binding := binding r @ [?b1]\<rparr>) @ new\<rparr>"
    "map (\<lambda>b. (method b, match b, handler b, chain h' b)) new
       = map (\<lambda>b. (method b, path c @ match b, handler b, chain h1 b @ view h1 (middlewares_r c))) bs"
    "\<forall>b\<in>set new. valid h' (middlewares b)" "agree h1 h'"
    using Cons.IH [OF rec] by blast
  have same: "map (\<lambda>b. (method b, path c @ match b, handler b, chain h1 b @ view h1 (middlewares_r c))) bs
      = map (\<lambda>b. (method b, path c @ match b, handler b, chain h b @ view h (middlewares_r c))) bs"
    using Cons.prems(2,3) a1 by (auto simp: chain_def agree_view)
  have "chain h' ?b1 = chain h b @ view h (middlewares_r c)"
    using agree_view [OF new(4) val1] v1 by (simp add: chain_def)
  moreover have "valid h' (middlewares ?b1)" using agree_valid [OF new(4) val1] by simp
  ultimately have "r' = r\<lparr>binding := binding r @ (?b1 # new)\<rparr>
      \<and> map (\<lambda>b. (method b, match b, handler b, chain h' b)) (?b1 # new)
          = map (\<lambda>b. (method b, path c @ match b, handler b, chain h b @ view h (middlewares_r c))) (b # bs)
      \<and> (\<forall>b\<in>set (?b1 # new). valid h' (middlewares b))
      \<and> agree h h'"
    using new same agree_trans [OF a1 new(4)] by simp
  then show ?case by blast
qed

lemma agree_table:
  "agree h h' \<Longrightarrow> \<forall>b\<in>set (binding r). valid h (middlewares b) \<Longrightarrow> table h' r = table h r"
  by (simp add: table_def chain_def agree_view)

text \<open>
  The contract of \<^verbatim>\<open>Merge\<close> when no append writes in place: every middleware slice is
  valid, and each binding of a child that has global middleware has a middleware slice
  with no spare capacity. Then the parent's table is its old table followed by the
  bindings of the children, child by child and in table order, each with the child's base
  path before its pattern and the child's global middleware after its own; the tables and
  the global middleware of the children are unchanged, and so are the other fields of the
  parent.
\<close>

theorem Merge_unshared:
  assumes "Merge grow r cs h = (r', h')"
    and "\<forall>b\<in>set (binding r). valid h (middlewares b)"
    and "\<forall>c\<in>set cs. valid h (middlewares_r c)
           \<and> (\<forall>b\<in>set (binding c). valid h (middlewares b)
                 \<and> (len (middlewares_r c) = 0 \<or> len (middlewares b) = cap (middlewares b)))"
  shows "table h' r' = table h r @
           concat (map (\<lambda>c. map (\<lambda>b. (method b, path c @ match b, handler b,
                                        chain h b @ view h (middlewares_r c))) (binding c)) cs)
         \<and> (\<forall>c\<in>set cs. table h' c = table h c \<and> view h' (middlewares_r c) = view h (middlewares_r c))
         \<and> path r' = path r \<and> middlewares_r r' = middlewares_r r \<and> container r' = container r
         \<and> agree h h'"
  using assms
proof (induction cs arbitrary: r h)
  case Nil
  then show ?case by (simp add: agree_refl)
next
  case (Cons c cs)
  obtain r1 h1 where mb: "merge_bindings grow c (binding c) (r, h) = (r1, h1)"
    by (cases "merge_bindings grow c (binding c) (r, h)")
  from Cons.prems(3) have vc: "valid h (middlewares_r c)"
    and vbs: "\<forall>b\<in>set (binding c). valid h (middlewares b)
           \<and> (len (middlewares_r c) = 0 \<or> len (middlewares b) = cap (middlewares b))"
    by auto
  from merge_bindings_unshared [OF mb vc vbs] obtain new where
    r1: "r1 = r\<lparr>binding := binding r @ new\<rparr>"
    and new: "map (\<lambda>b. (method b, match b, handler b, chain h1 b)) new
        = map (\<lambda>b. (method b, path c @ match b, handler b, chain h b @ view h (middlewares_r c))) (binding c)"
    and vnew: "\<forall>b\<in>set new. valid h1 (middlewares b)" and a1: "agree h h1"
    by blast
  from Cons.prems(1) mb have rec: "Merge grow r1 cs h1 = (r', h')" by simp
  have v1: "\<forall>b\<in>set (binding r1). valid h1 (middlewares b)"
    using r1 vnew Cons.prems(2) a1 by (auto intro: agree_valid)
  have v2: "\<forall>c\<in>set cs. valid h1 (middlewares_r c)
           \<and> (\<forall>b\<in>set (binding c). valid h1 (middlewares b)
                 \<and> (len (middlewares_r c) = 0 \<or> len (middlewares b) = cap (middlewares b)))"
    using Cons.prems(3) a1 by (auto intro: agree_valid)
  from Cons.IH [OF rec v1 v2]
  have ih: "table h' r' = table h1 r1 @
           concat (map (\<lambda>c. map (\<lambda>b. (method b, path c @ match b, handler b,
                                        chain h1 b @ view h1 (middlewares_r c))) (binding c)) cs)"
    and ihc: "\<forall>c\<in>set cs. table h' c = table h1 c \<and> view h' (middlewares_r c) = view h1 (middlewares_r c)"
    and ihr: "path r' = path r1" "middlewares_r r' = middlewares_r r1" "container r' = container r1"
    and a2: "agree h1 h'" by auto
  have t1: "table h1 r1 = table h r @
      map (\<lambda>b. (method b, path c @ match b, handler b, chain h b @ view h (middlewares_r c))) (binding c)"
    using r1 new agree_table [OF a1 Cons.prems(2)] by (simp add: table_def)
  have t2: "map (\<lambda>b. (method b, path c' @ match b, handler b, chain h1 b @ view h1 (middlewares_r c'))) (binding c')
      = map (\<lambda>b. (method b, path c' @ match b, handler b, chain h b @ view h (middlewares_r c'))) (binding c')"
    if "c' \<in> set cs" for c'
    using that Cons.prems(3) a1 by (auto simp: chain_def agree_view)
  have a: "agree h h'" using a1 a2 by (rule agree_trans)
  have kids: "\<forall>c'\<in>set (c # cs). table h' c' = table h c' \<and> view h' (middlewares_r c') = view h (middlewares_r c')"
    using Cons.prems(3) a by (auto simp: agree_view intro!: agree_table)
  have "concat (map (\<lambda>c. map (\<lambda>b. (method b, path c @ match b, handler b,
                                        chain h1 b @ view h1 (middlewares_r c))) (binding c)) cs)
      = concat (map (\<lambda>c. map (\<lambda>b. (method b, path c @ match b, handler b,
                                        chain h b @ view h (middlewares_r c))) (binding c)) cs)"
    using t2 by (auto intro!: arg_cong [where f = concat])
  with ih t1 kids ihr r1 a show ?case by simp
qed

lemmas ev3 = api_setup_def AddMiddleware_def Base_def append_slice_def grow_double_def
  table_def chain_def

text \<open>
  The hypotheses hold for the router \<open>site\<close> as a child: its slices are valid in
  \<open>heap0\<close> and the one binding with middleware has a full slice. Merged into a parent
  that has one route, its three routes follow the parent's, each with \<open>g\<close> appended.
\<close>

lemma Merge_unshared_example:
  "table (snd (Merge grow_double (Get empty_router ''/p'' ''hp'' nil_slice) [Base site ''/s''] heap0))
         (fst (Merge grow_double (Get empty_router ''/p'' ''hp'' nil_slice) [Base site ''/s''] heap0))
     = [(''GET'', ''/p'', ''hp'', []),
        (''GET'', ''/s/a'', ''ha'', [''g'']),
        (''GET'', ''/s/user/:id'', ''hu'', [''m1'', ''m2'', ''g'']),
        (''GET'', ''/s/user/42'', ''hx'', [''g''])]
   \<and> table (snd (Merge grow_double (Get empty_router ''/p'' ''hp'' nil_slice) [Base site ''/s''] heap0))
           (Base site ''/s'')
     = table heap0 (Base site ''/s'')"
proof -
  obtain r' h' where m: "Merge grow_double (Get empty_router ''/p'' ''hp'' nil_slice) [Base site ''/s''] heap0 = (r', h')"
    by (cases "Merge grow_double (Get empty_router ''/p'' ''hp'' nil_slice) [Base site ''/s''] heap0")
  have 1: "\<forall>b\<in>set (binding (Get empty_router ''/p'' ''hp'' nil_slice)). valid heap0 (middlewares b)"
    by (simp add: ev2 valid_def)
  have 2: "\<forall>c\<in>set [Base site ''/s'']. valid heap0 (middlewares_r c)
           \<and> (\<forall>b\<in>set (binding c). valid heap0 (middlewares b)
                 \<and> (len (middlewares_r c) = 0 \<or> len (middlewares b) = cap (middlewares b)))"
    by (simp add: ev2 valid_def Base_def)
  have 3: "table heap0 (Get empty_router ''/p'' ''hp'' nil_slice) = [(''GET'', ''/p'', ''hp'', [])]"
    "map (\<lambda>b. (method b, path (Base site ''/s'') @ match b, handler b,
                 chain heap0 b @ view heap0 (middlewares_r (Base site ''/s''))))
       (binding (Base site ''/s''))
     = [(''GET'', ''/s/a'', ''ha'', [''g'']),
        (''GET'', ''/s/user/:id'', ''hu'', [''m1'', ''m2'', ''g'']),
        (''GET'', ''/s/user/42'', ''hx'', [''g''])]"
    by (simp_all add: ev2 table_def chain_def Base_def upt_rec)
  from Merge_unshared [OF m 1 2] 3 m show ?thesis by simp
qed

text \<open>Merging a child that has no bindings changes neither the parent nor the heap.\<close>

lemma Merge_no_bindings:
  "binding c = [] \<Longrightarrow> Merge grow r [c] h = (r, h)"
  by simp

text \<open>
  C4: the merge is not without effect on the child. In the child \<open>api_setup\<close> the
  middleware slices of the two routes share an array and the first has a spare cell; the
  append of \<^verbatim>\<open>Merge\<close> for the first route writes the child's global middleware \<open>g\<close> into
  that cell, which is the second element of the second route's slice. Before the merge the
  child's route \<^verbatim>\<open>/b\<close> has the middleware \<open>m1\<close>, \<open>m2\<close>, after it \<open>m1\<close>, \<open>g\<close>, and the
  child dispatches \<^verbatim>\<open>GET /v1/b\<close> through \<open>g\<close>, \<open>m1\<close>, \<open>g\<close> where it ran \<open>g\<close>, \<open>m1\<close>, \<open>m2\<close>.
\<close>

theorem Merge_overwrites_child:
  "table (snd api_setup) (fst api_setup)
     = [(''GET'', ''/a'', ''ha'', [''m1'']), (''GET'', ''/b'', ''hb'', [''m1'', ''m2''])]
   \<and> table (snd (Merge grow_double empty_router [fst api_setup] (snd api_setup))) (fst api_setup)
     = [(''GET'', ''/a'', ''ha'', [''m1'']), (''GET'', ''/b'', ''hb'', [''m1'', ''g''])]
   \<and> map (case_event (\<lambda>m. m) (\<lambda>f q. f))
        (fst (ServeHTTP PathToRegexp (snd api_setup) (fst api_setup) (request ''GET'' ''/v1/b'' [])))
     = [''g'', ''m1'', ''m2'', ''hb'']
   \<and> map (case_event (\<lambda>m. m) (\<lambda>f q. f))
        (fst (ServeHTTP PathToRegexp (snd (Merge grow_double empty_router [fst api_setup] (snd api_setup)))
               (fst api_setup) (request ''GET'' ''/v1/b'' [])))
     = [''g'', ''m1'', ''g'', ''hb'']"
  by (simp add: ev2 ev3 upt_rec)

text \<open>
  C5: on the same input the parent's table after the merge is not what the contract
  gives. The binding appended for the child's route \<^verbatim>\<open>/b\<close> has the middleware \<open>m1\<close>,
  \<open>g\<close>, \<open>g\<close>; the route's own middleware followed by the child's global middleware is
  \<open>m1\<close>, \<open>m2\<close>, \<open>g\<close>.
\<close>

theorem Merge_chain_overwritten:
  "table (snd (Merge grow_double empty_router [fst api_setup] (snd api_setup)))
         (fst (Merge grow_double empty_router [fst api_setup] (snd api_setup)))
     = [(''GET'', ''/v1/a'', ''ha'', [''m1'', ''g'']), (''GET'', ''/v1/b'', ''hb'', [''m1'', ''g'', ''g''])]
   \<and> map (\<lambda>b. (method b, path (fst api_setup) @ match b, handler b,
                 chain (snd api_setup) b @ view (snd api_setup) (middlewares_r (fst api_setup))))
          (binding (fst api_setup))
     = [(''GET'', ''/v1/a'', ''ha'', [''m1'', ''g'']), (''GET'', ''/v1/b'', ''hb'', [''m1'', ''m2'', ''g''])]"
  by (simp add: ev2 ev3 upt_rec)

end
